theory Spec2Isabelle
  imports Complex_Main
begin

section \<open>JavaScript values and string helpers\<close>

text \<open>
  The query builder class \<^verbatim>\<open>DB\<close> of \<^verbatim>\<open>Database.jsx\<close> is embedded as pure functions over
  an explicit builder record and an explicit world (the debug flag, the calls made on the
  driver, and the console). Every \<^verbatim>\<open>async\<close> method is run to completion before the next
  call on the same builder, as its single owner does with \<^verbatim>\<open>await\<close>; a rejected promise or
  a thrown error is the \<open>Inl\<close> of a sum. Strings are \<^typ>\<open>string\<close>.

  A JavaScript number is an IEEE double. The numbers of this program (pages, page sizes,
  offsets, counts) are modelled as the integer-valued doubles \<open>Fin i\<close> together with the
  three non-finite values; the two zeros are not told apart. Subtraction, multiplication
  and the ceiling of a quotient round as double arithmetic does (to nearest, ties to even,
  overflow to infinity), and a number is rendered as \<^verbatim>\<open>Number::toString\<close> renders it.

  A plain data object is an association list of its own properties in enumeration order;
  its prototype is \<^verbatim>\<open>Object.prototype\<close>, whose members are found by \<^verbatim>\<open>in\<close> and by property
  access like own ones.
\<close>

datatype jsval = JUndefined | JNull | JBool bool | JNum int | JStr string | JBuiltin string

type_synonym jsobj = "(string \<times> jsval) list"

datatype error = Error (message: string)

definition keys :: "jsobj \<Rightarrow> string list" where
  "keys obj = map fst obj"

definition vals :: "jsobj \<Rightarrow> jsval list" where
  "vals obj = map snd obj"

text \<open>The property names every plain object inherits from \<^verbatim>\<open>Object.prototype\<close>.\<close>

definition object_prototype_keys :: "string list" where
  "object_prototype_keys =
     [''constructor'', ''__defineGetter__'', ''__defineSetter__'', ''hasOwnProperty'',
      ''__lookupGetter__'', ''__lookupSetter__'', ''isPrototypeOf'', ''propertyIsEnumerable'',
      ''toString'', ''valueOf'', ''__proto__'', ''toLocaleString'']"

text \<open>
  \<^verbatim>\<open>obj[k]\<close>: the own property value; else the inherited member of that name
  (\<open>JBuiltin k\<close>, a function or the prototype object); else \<^verbatim>\<open>undefined\<close>.
\<close>

definition get_prop :: "jsobj \<Rightarrow> string \<Rightarrow> jsval" where
  "get_prop obj k =
     (case map_of obj k of
        Some v \<Rightarrow> v
      | None \<Rightarrow> if k \<in> set object_prototype_keys then JBuiltin k else JUndefined)"

text \<open>\<^verbatim>\<open>k in obj\<close>: own or inherited.\<close>

definition has_key :: "string \<Rightarrow> jsobj \<Rightarrow> bool" where
  "has_key k obj = (k \<in> set (keys obj) \<or> k \<in> set object_prototype_keys)"

text \<open>\<^verbatim>\<open>Array.prototype.join\<close> on an array of strings.\<close>

fun join_str :: "string \<Rightarrow> string list \<Rightarrow> string" where
  "join_str sep [] = []"
| "join_str sep [x] = x"
| "join_str sep (x # y # ys) = x @ sep @ join_str sep (y # ys)"

definition nl :: string where
  "nl = [CHR 0x0A]"

text \<open>The indentation of a template-literal line: \<open>n\<close> spaces.\<close>

definition ind :: "nat \<Rightarrow> string" where
  "ind n = replicate n (CHR '' '')"

section \<open>Numbers\<close>

datatype jsnum = Fin int | PosInf | NegInf | NaN

text \<open>The decimal digits of a non-negative integer.\<close>

function dec_str :: "int \<Rightarrow> string" where
  "dec_str n =
     (if n < 10 then [''0123456789'' ! nat n]
      else dec_str (n div 10) @ [''0123456789'' ! nat (n mod 10)])"
  by pat_completeness auto
termination
  by (relation "measure nat") auto

declare dec_str.simps [simp del]

text \<open>The number of binary digits of a positive integer.\<close>

function bit_length :: "int \<Rightarrow> nat" where
  "bit_length n = (if n \<le> 0 then 0 else Suc (bit_length (n div 2)))"
  by pat_completeness auto
termination
  by (relation "measure nat") auto

declare bit_length.simps [simp del]

text \<open>The quotient \<open>num / den\<close> rounded to the nearest integer, a tie to the even one.\<close>

definition round_half_even :: "int \<Rightarrow> int \<Rightarrow> int" where
  "round_half_even num den =
     (let q = num div den; r = num mod den
      in if den < 2 * r \<or> (2 * r = den \<and> odd q) then q + 1 else q)"

text \<open>
  The double nearest to an integer: exact below \<open>2^53\<close>; above, the 53 leading binary
  digits rounded half to even; infinite from \<open>2^1024\<close> on. It is the result of an
  arithmetic operation whose exact result is that integer.
\<close>

definition to_double :: "int \<Rightarrow> jsnum" where
  "to_double x =
     (let a = \<bar>x\<bar> in
      if a < 2 ^ 53 then Fin x
      else
        (let e = bit_length a - 53;
             v = round_half_even a (2 ^ e) * 2 ^ e
         in if 2 ^ 1024 \<le> v then (if x < 0 then NegInf else PosInf)
            else Fin (if x < 0 then - v else v)))"

definition js_sign :: "jsnum \<Rightarrow> int" where
  "js_sign x = (case x of Fin a \<Rightarrow> sgn a | PosInf \<Rightarrow> 1 | NegInf \<Rightarrow> - 1 | NaN \<Rightarrow> 0)"

text \<open>\<^verbatim>\<open>x * y\<close> and \<^verbatim>\<open>x - y\<close>.\<close>

definition js_mul :: "jsnum \<Rightarrow> jsnum \<Rightarrow> jsnum" where
  "js_mul x y =
     (case (x, y) of
        (Fin a, Fin b) \<Rightarrow> to_double (a * b)
      | _ \<Rightarrow>
          if x = NaN \<or> y = NaN \<or> js_sign x * js_sign y = 0 then NaN
          else if 0 < js_sign x * js_sign y then PosInf else NegInf)"

definition js_sub :: "jsnum \<Rightarrow> jsnum \<Rightarrow> jsnum" where
  "js_sub x y =
     (case (x, y) of
        (Fin a, Fin b) \<Rightarrow> to_double (a - b)
      | (NaN, _) \<Rightarrow> NaN
      | (_, NaN) \<Rightarrow> NaN
      | (PosInf, PosInf) \<Rightarrow> NaN
      | (NegInf, NegInf) \<Rightarrow> NaN
      | (PosInf, _) \<Rightarrow> PosInf
      | (NegInf, _) \<Rightarrow> NegInf
      | (Fin a, PosInf) \<Rightarrow> NegInf
      | (Fin a, NegInf) \<Rightarrow> PosInf)"

text \<open>
  \<^verbatim>\<open>Number::toString\<close> of an integer-valued double \<open>x\<close> above \<open>2^53\<close> prints the shortest
  decimal that still denotes \<open>x\<close>, the closest to \<open>x\<close> when there are two (as the Node.js
  runtime does). With \<open>e\<close> trailing zeros the two decimals around \<open>x\<close> are tried; the
  search goes from the most zeros down.
\<close>

definition candidate :: "int \<Rightarrow> nat \<Rightarrow> int option" where
  "candidate x e =
     (let lo = (x div 10 ^ e) * 10 ^ e;
          hi = lo + 10 ^ e;
          ok_lo = (to_double lo = Fin x);
          ok_hi = (to_double hi = Fin x)
      in if ok_lo \<and> ok_hi
         then Some (if x - lo < hi - x then lo
                    else if hi - x < x - lo then hi
                    else if even (x div 10 ^ e) then lo else hi)
         else if ok_lo then Some lo
         else if ok_hi then Some hi
         else None)"

fun shortest_from :: "int \<Rightarrow> nat \<Rightarrow> int" where
  "shortest_from x 0 = (case candidate x 0 of Some v \<Rightarrow> v | None \<Rightarrow> x)"
| "shortest_from x (Suc e) =
     (case candidate x (Suc e) of Some v \<Rightarrow> v | None \<Rightarrow> shortest_from x e)"

definition shortest_decimal :: "int \<Rightarrow> int" where
  "shortest_decimal x = shortest_from x (length (dec_str x) - 1)"

text \<open>Digits \<open>d1 d2 ... dn\<close> as \<^verbatim>\<open>d1.d2...dk e+(n-1)\<close>, trailing zeros dropped.\<close>

definition exponent_form :: "string \<Rightarrow> string" where
  "exponent_form ds =
     (case rev (dropWhile (\<lambda>c. c = CHR ''0'') (rev ds)) of
        [] \<Rightarrow> ds
      | c # cs \<Rightarrow>
          (if cs = [] then [c] else c # ''.'' @ cs) @ ''e+'' @ dec_str (int (length ds) - 1))"

text \<open>
  A non-negative integer-valued double in a template literal: all its digits up to
  \<open>2^53\<close>; beyond, the shortest decimal, in full up to 21 digits and in exponent form
  from \<open>10^21\<close> on.
\<close>

definition abs_str :: "int \<Rightarrow> string" where
  "abs_str x =
     (if x \<le> 2 ^ 53 then dec_str x
      else (let ds = dec_str (shortest_decimal x)
            in if length ds \<le> 21 then ds else exponent_form ds))"

definition num_str :: "jsnum \<Rightarrow> string" where
  "num_str x =
     (case x of
        NaN \<Rightarrow> ''NaN''
      | PosInf \<Rightarrow> ''Infinity''
      | NegInf \<Rightarrow> ''-Infinity''
      | Fin i \<Rightarrow> (if i < 0 then ''-'' @ abs_str (- i) else abs_str i))"

text \<open>
  The double nearest to \<open>A / B\<close> for positive integers, as mantissa and binary exponent
  \<open>(m, e)\<close> of the value \<open>m * 2^e\<close>: \<open>p\<close> is the binary exponent of the quotient, the
  mantissa has 53 digits (fewer for a subnormal, whose exponent is \<open>-1074\<close>).
\<close>

definition double_quotient :: "int \<Rightarrow> int \<Rightarrow> int \<times> int" where
  "double_quotient A B =
     (let L = int (bit_length A) - int (bit_length B);
          p = (if B * 2 ^ nat L \<le> A * 2 ^ nat (- L) then L else L - 1);
          e = max (p - 52) (- 1074)
      in (round_half_even (A * 2 ^ nat (- e)) (B * 2 ^ nat e), e))"

text \<open>\<^verbatim>\<open>Math.ceil(a / d)\<close> for integer-valued doubles, \<open>d\<close> not zero.\<close>

definition ceil_quotient :: "int \<Rightarrow> int \<Rightarrow> jsnum" where
  "ceil_quotient a d =
     (if a = 0 then Fin 0
      else
        (let neg = ((a < 0) \<noteq> (d < 0));
             (m, e) = double_quotient \<bar>a\<bar> \<bar>d\<bar>
         in if 0 \<le> e
            then (let v = m * 2 ^ nat e
                  in if 2 ^ 1024 \<le> v then (if neg then NegInf else PosInf)
                     else Fin (if neg then - v else v))
            else Fin (if neg then - (m div 2 ^ nat (- e)) else - ((- m) div 2 ^ nat (- e)))))"

section \<open>Builder state and clause accumulator\<close>

record builder =
  table :: string
  trx :: "nat option"
  selectCols :: string
  joins :: "string list"
  wheres :: "string list"
  params :: "jsval list"
  order :: string
  limitVal :: string

definition reset :: "builder \<Rightarrow> builder" where
  "reset b = b\<lparr>selectCols := ''*'', joins := [], wheres := [], params := [],
               order := '''', limitVal := ''''\<rparr>"

text \<open>\<^verbatim>\<open>new DB(table)\<close>; \<^verbatim>\<open>DB.table(name)\<close> is the same constructor call.\<close>

definition DB :: "string \<Rightarrow> builder" where
  "DB name = reset \<lparr>table = name, trx = None, selectCols = [], joins = [], wheres = [],
                    params = [], order = [], limitVal = []\<rparr>"






definition db_where :: "string \<Rightarrow> string \<Rightarrow> jsval \<Rightarrow> builder \<Rightarrow> builder" where
  "db_where column operator v b =
     b\<lparr>wheres := wheres b @ [column @ '' '' @ operator @ '' ?''], params := params b @ [v]\<rparr>"


definition orderBy :: "string \<Rightarrow> string \<Rightarrow> builder \<Rightarrow> builder" where
  "orderBy column dir b = b\<lparr>order := ''ORDER BY '' @ column @ '' '' @ dir\<rparr>"

text \<open>\<^verbatim>\<open>limit(count, offset = null)\<close>: \<open>None\<close> is the omitted (or null) offset.\<close>

definition limit :: "jsnum \<Rightarrow> jsnum option \<Rightarrow> builder \<Rightarrow> builder" where
  "limit cnt offset b =
     b\<lparr>limitVal := (case offset of
                       Some off \<Rightarrow> ''LIMIT '' @ num_str off @ '', '' @ num_str cnt
                     | None \<Rightarrow> ''LIMIT '' @ num_str cnt)\<rparr>"

section \<open>Statement compiler\<close>

text \<open>The local \<^verbatim>\<open>where\<close> of \<^verbatim>\<open>buildSelect\<close>.\<close>

definition whereClause :: "builder \<Rightarrow> string" where
  "whereClause b =
     (if length (wheres b) \<noteq> 0 then ''WHERE '' @ join_str '' AND '' (wheres b) else '''')"

definition buildSelect :: "builder \<Rightarrow> string" where
  "buildSelect b =
     nl @ ind 6 @ ''SELECT '' @ selectCols b
     @ nl @ ind 6 @ ''FROM '' @ table b
     @ nl @ ind 6 @ join_str '' '' (joins b)
     @ nl @ ind 6 @ whereClause b
     @ nl @ ind 6 @ order b
     @ nl @ ind 6 @ limitVal b
     @ nl @ ind 4"

section \<open>Driver, world and executor\<close>

text \<open>
  The connection pool and the driver are external. A driver is any deterministic reaction
  to the history of driver calls made so far: the reply to \<^verbatim>\<open>execute\<close> on the pool or on a
  checked-out connection, to \<^verbatim>\<open>getConnection\<close>, to \<^verbatim>\<open>beginTransaction\<close> and to
  \<^verbatim>\<open>commit\<close>. A resolved \<^verbatim>\<open>execute\<close> is the pair of the driver's first tuple element (a row
  array, or a result object for writes) and its field metadata; a rejected one is an error.
\<close>

datatype target = Pool | Conn nat

datatype payload = RowSet "jsobj list" | ResultObj jsobj

datatype fields = Fields "string list"

datatype event =
    Execute target string "jsval list"
  | GetConnection
  | BeginTransaction nat
  | Commit nat
  | Rollback nat
  | Release nat

record driver =
  execute_reply :: "event list \<Rightarrow> target \<Rightarrow> string \<Rightarrow> jsval list \<Rightarrow> error + payload \<times> fields"
  getConnection_reply :: "event list \<Rightarrow> error + nat"
  beginTransaction_reply :: "event list \<Rightarrow> nat \<Rightarrow> error option"
  commit_reply :: "event list \<Rightarrow> nat \<Rightarrow> error option"

text \<open>
  The world: the process-wide \<^verbatim>\<open>DB.debug\<close> flag, the calls made on the driver so far, and
  what \<^verbatim>\<open>console.log\<close> has printed (statement text and parameters).
\<close>

record world =
  debug :: bool
  io :: "event list"
  console :: "(string \<times> jsval list) list"

text \<open>\<^verbatim>\<open>sql.replace(/\s+/g, " ").trim()\<close> on ASCII text.\<close>

definition is_space :: "char \<Rightarrow> bool" where
  "is_space c = (c \<in> set [CHR 0x09, CHR 0x0A, CHR 0x0B, CHR 0x0C, CHR 0x0D, CHR '' ''])"

fun squeeze :: "bool \<Rightarrow> string \<Rightarrow> string" where
  "squeeze in_run [] = []"
| "squeeze in_run (c # cs) =
     (if is_space c then (if in_run then squeeze True cs else CHR '' '' # squeeze True cs)
      else c # squeeze False cs)"

definition trim :: "string \<Rightarrow> string" where
  "trim s = rev (dropWhile is_space (rev (dropWhile is_space s)))"

definition target_of :: "builder \<Rightarrow> target" where
  "target_of b = (case trx b of Some c \<Rightarrow> Conn c | None \<Rightarrow> Pool)"

text \<open>\<^verbatim>\<open>_execute(sql, params = [])\<close>.\<close>

definition execute :: "driver \<Rightarrow> string \<Rightarrow> jsval list \<Rightarrow> builder \<Rightarrow> world
    \<Rightarrow> (error + payload \<times> fields) \<times> world" where
  "execute drv sql ps b w =
     (let w1 = (if debug w then w\<lparr>console := console w @ [(trim (squeeze False sql), ps)]\<rparr>
                else w)
      in (execute_reply drv (io w1) (target_of b) sql ps,
          w1\<lparr>io := io w1 @ [Execute (target_of b) sql ps]\<rparr>))"

section \<open>Read operations\<close>

definition get :: "driver \<Rightarrow> builder \<Rightarrow> world \<Rightarrow> (error + payload) \<times> builder \<times> world" where
  "get drv b w =
     (let sql = buildSelect b;
          (r, w') = execute drv sql (params b) b w
      in ((case r of
             Inl err \<Rightarrow> Inl (Error (''GET failed: '' @ message err))
           | Inr (rows, flds) \<Rightarrow> Inr rows),
          reset b, w'))"

text \<open>\<^verbatim>\<open>rows[0] ?? null\<close>: a row, or a primitive value (\<^verbatim>\<open>null\<close> when there is no first element).\<close>

datatype item = ItemRow jsobj | ItemVal jsval

definition first_or_null :: "payload \<Rightarrow> item" where
  "first_or_null rows =
     (case rows of
        RowSet [] \<Rightarrow> ItemVal JNull
      | RowSet (r # _) \<Rightarrow> ItemRow r
      | ResultObj obj \<Rightarrow>
          (let v = get_prop obj ''0'' in ItemVal (if v = JUndefined \<or> v = JNull then JNull else v)))"

definition first :: "driver \<Rightarrow> builder \<Rightarrow> world \<Rightarrow> (error + item) \<times> builder \<times> world" where
  "first drv b w =
     (let b1 = limit (Fin 1) None b;
          (r, b2, w') = get drv b1 w
      in ((case r of Inl err \<Rightarrow> Inl err | Inr rows \<Rightarrow> Inr (first_or_null rows)), b2, w'))"

text \<open>\<^verbatim>\<open>rows[0]?.total || 0\<close>.\<close>

definition truthy :: "jsval \<Rightarrow> bool" where
  "truthy v =
     (case v of JUndefined \<Rightarrow> False | JNull \<Rightarrow> False | JBool t \<Rightarrow> t | JNum n \<Rightarrow> n \<noteq> 0
      | JStr s \<Rightarrow> s \<noteq> [] | JBuiltin k \<Rightarrow> True)"

definition total_or_zero :: "payload \<Rightarrow> jsval" where
  "total_or_zero rows =
     (let t = (case rows of
                 RowSet [] \<Rightarrow> JUndefined
               | RowSet (r # _) \<Rightarrow> get_prop r ''total''
               | ResultObj obj \<Rightarrow> JUndefined)
      in if truthy t then t else JNum 0)"

text \<open>
  The COUNT statement of \<^verbatim>\<open>count\<close> (template indented by 8, closing line by 6) and of
  \<^verbatim>\<open>paginate\<close> (indented by 6 and 4, column \<^verbatim>\<open>*\<close>).
\<close>

definition countSql :: "nat \<Rightarrow> string \<Rightarrow> builder \<Rightarrow> string" where
  "countSql n column b =
     nl @ ind (n + 2) @ ''SELECT COUNT('' @ column @ '') as total''
     @ nl @ ind (n + 2) @ ''FROM '' @ table b
     @ nl @ ind (n + 2) @ join_str '' '' (joins b)
     @ nl @ ind (n + 2)
     @ (if length (wheres b) \<noteq> 0 then ''WHERE '' @ join_str '' AND '' (wheres b) else '''')
     @ nl @ ind n"

definition count :: "string \<Rightarrow> driver \<Rightarrow> builder \<Rightarrow> world \<Rightarrow> (error + jsval) \<times> builder \<times> world" where
  "count column drv b w =
     (let sql = countSql 6 column b;
          (r, w') = execute drv sql (params b) b w
      in ((case r of
             Inl err \<Rightarrow> Inl (Error (''COUNT failed: '' @ message err))
           | Inr (rows, flds) \<Rightarrow> Inr (total_or_zero rows)),
          reset b, w'))"

section \<open>Write operations\<close>

text \<open>\<^verbatim>\<open>res.insertId\<close>, \<^verbatim>\<open>res.affectedRows\<close>: a property of the driver's first tuple element.\<close>

definition res_prop :: "payload \<Rightarrow> string \<Rightarrow> jsval" where
  "res_prop res k = (case res of ResultObj obj \<Rightarrow> get_prop obj k | RowSet rows \<Rightarrow> JUndefined)"

text \<open>The validation loop of \<^verbatim>\<open>insert\<close>: the first entry whose value is \<^verbatim>\<open>undefined\<close> throws.\<close>

fun check_defined :: "jsobj \<Rightarrow> error option" where
  "check_defined [] = None"
| "check_defined ((key, v) # es) =
     (if v = JUndefined
      then Some (Error (''Undefined value for column: '' @ key @ ''-'' @ ''undefined''))
      else check_defined es)"

definition insertSql :: "string \<Rightarrow> string list \<Rightarrow> string" where
  "insertSql tbl ks =
     nl @ ind 8 @ ''INSERT INTO '' @ tbl @ '' ('' @ join_str '', '' ks @ '')''
     @ nl @ ind 8 @ ''VALUES ('' @ join_str '', '' (map (\<lambda>k. ''?'') ks) @ '')''
     @ nl @ ind 6"

definition insert_db :: "driver \<Rightarrow> jsobj \<Rightarrow> builder \<Rightarrow> world \<Rightarrow> (error + jsval) \<times> builder \<times> world" where
  "insert_db drv data b w =
     (case check_defined data of
        Some err \<Rightarrow> (Inl (Error (''INSERT['' @ table b @ ''] failed: '' @ message err)), b, w)
      | None \<Rightarrow>
          (let sql = insertSql (table b) (keys data);
               (r, w') = execute drv sql (vals data) b w
           in ((case r of
                  Inl err \<Rightarrow> Inl (Error (''INSERT['' @ table b @ ''] failed: '' @ message err))
                | Inr (res, flds) \<Rightarrow> Inr (res_prop res ''insertId'')),
               b, w')))"

definition dq :: string where
  "dq = [CHR 0x22]"

text \<open>The inner loop of \<^verbatim>\<open>insertBulk\<close>: every key of the first row, looked up in row \<open>i\<close>.\<close>

fun check_keys :: "string list \<Rightarrow> jsobj \<Rightarrow> nat \<Rightarrow> error option" where
  "check_keys [] row i = None"
| "check_keys (key # ks) row i =
     (if \<not> has_key key row
      then Some (Error (''Missing column '' @ dq @ key @ dq @ '' in row '' @ dec_str (int i)))
      else if get_prop row key = JUndefined
      then Some (Error (''Undefined value for column '' @ dq @ key @ dq @ '' in row ''
                        @ dec_str (int i)))
      else check_keys ks row i)"

text \<open>The outer loop, from row index \<open>i\<close> on.\<close>

fun check_rows :: "string list \<Rightarrow> jsobj list \<Rightarrow> nat \<Rightarrow> error option" where
  "check_rows ks [] i = None"
| "check_rows ks (row # rows) i =
     (case check_keys ks row i of Some err \<Rightarrow> Some err | None \<Rightarrow> check_rows ks rows (Suc i))"

definition insertBulkSql :: "string \<Rightarrow> string list \<Rightarrow> jsobj list \<Rightarrow> string" where
  "insertBulkSql tbl ks rows =
     (let placeholdersPerRow = ''('' @ join_str '', '' (map (\<lambda>k. ''?'') ks) @ '')'';
          placeholders = join_str '', '' (map (\<lambda>row. placeholdersPerRow) rows)
      in nl @ ind 10 @ ''INSERT INTO '' @ tbl @ '' ('' @ join_str '', '' ks @ '')''
         @ nl @ ind 10 @ ''VALUES '' @ placeholders
         @ nl @ ind 8)"

text \<open>\<^verbatim>\<open>rows.flatMap(row => keys.map(k => row[k]))\<close>.\<close>

definition flatten_values :: "string list \<Rightarrow> jsobj list \<Rightarrow> jsval list" where
  "flatten_values ks rows = concat (map (\<lambda>row. map (\<lambda>k. get_prop row k) ks) rows)"

definition insertBulk :: "driver \<Rightarrow> jsobj list \<Rightarrow> builder \<Rightarrow> world
    \<Rightarrow> (error + jsval) \<times> builder \<times> world" where
  "insertBulk drv rows b w =
     (case rows of
        [] \<Rightarrow> (Inl (Error (''BULK INSERT failed: '' @ ''insertBulk requires a non-empty array'')),
               b, w)
      | row0 # _ \<Rightarrow>
          (let ks = keys row0 in
           case check_rows ks rows 0 of
             Some err \<Rightarrow> (Inl (Error (''BULK INSERT failed: '' @ message err)), b, w)
           | None \<Rightarrow>
               (let sql = insertBulkSql (table b) ks rows;
                    values = flatten_values ks rows;
                    (r, w') = execute drv sql values b w
                in ((case r of
                       Inl err \<Rightarrow> Inl (Error (''BULK INSERT failed: '' @ message err))
                     | Inr (res, flds) \<Rightarrow> Inr (res_prop res ''affectedRows'')),
                    b, w'))))"

definition updateSql :: "jsobj \<Rightarrow> builder \<Rightarrow> string" where
  "updateSql data b =
     (let set_clause = join_str '', '' (map (\<lambda>k. k @ ''=?'') (keys data))
      in nl @ ind 8 @ ''UPDATE '' @ table b
         @ nl @ ind 8 @ ''SET '' @ set_clause
         @ nl @ ind 8 @ ''WHERE '' @ join_str '' AND '' (wheres b)
         @ nl @ ind 6)"

definition update :: "driver \<Rightarrow> jsobj \<Rightarrow> builder \<Rightarrow> world \<Rightarrow> (error + jsval) \<times> builder \<times> world" where
  "update drv data b w =
     (if length (wheres b) = 0 then (Inl (Error ''UPDATE requires WHERE''), b, w)
      else
        (let sql = updateSql data b;
             ps = vals data @ params b;
             (r, w') = execute drv sql ps b w
         in ((case r of Inl err \<Rightarrow> Inl err | Inr (res, flds) \<Rightarrow> Inr (res_prop res ''affectedRows'')),
             reset b, w')))"

definition deleteSql :: "builder \<Rightarrow> string" where
  "deleteSql b =
     nl @ ind 8 @ ''DELETE FROM '' @ table b
     @ nl @ ind 8 @ ''WHERE '' @ join_str '' AND '' (wheres b)
     @ nl @ ind 6"

definition delete :: "driver \<Rightarrow> builder \<Rightarrow> world \<Rightarrow> (error + jsval) \<times> builder \<times> world" where
  "delete drv b w =
     (if length (wheres b) = 0 then (Inl (Error ''DELETE requires WHERE''), b, w)
      else
        (let sql = deleteSql b;
             (r, w') = execute drv sql (params b) b w
         in ((case r of Inl err \<Rightarrow> Inl err | Inr (res, flds) \<Rightarrow> Inr (res_prop res ''affectedRows'')),
             reset b, w')))"

definition truncate_table :: "driver \<Rightarrow> builder \<Rightarrow> world
    \<Rightarrow> (error + payload \<times> fields) \<times> builder \<times> world" where
  "truncate_table drv b w =
     (let (r, w') = execute drv (''TRUNCATE TABLE '' @ table b) [] b w in (r, b, w'))"

section \<open>Pagination\<close>

text \<open>
  The value of \<^verbatim>\<open>Math.ceil(total / perPage)\<close>. \<^verbatim>\<open>total\<close> is converted with ToNumber; the
  conversion of a string is ECMAScript's StringToNumber, taken as the parameter \<open>str_num\<close>.
  \<open>perPage\<close> is a finite number; dividing by zero gives an infinity, or NaN for \<open>0 / 0\<close>.
\<close>

definition to_number :: "(string \<Rightarrow> jsnum) \<Rightarrow> jsval \<Rightarrow> jsnum" where
  "to_number str_num v =
     (case v of JUndefined \<Rightarrow> NaN | JNull \<Rightarrow> Fin 0 | JBool t \<Rightarrow> Fin (if t then 1 else 0)
      | JNum n \<Rightarrow> Fin n | JStr s \<Rightarrow> str_num s | JBuiltin k \<Rightarrow> NaN)"

definition ceil_div :: "jsnum \<Rightarrow> int \<Rightarrow> jsnum" where
  "ceil_div x d =
     (case x of
        Fin a \<Rightarrow>
          (if d \<noteq> 0 then ceil_quotient a d
           else if 0 < a then PosInf else if a < 0 then NegInf else NaN)
      | PosInf \<Rightarrow> (if 0 \<le> d then PosInf else NegInf)
      | NegInf \<Rightarrow> (if 0 \<le> d then NegInf else PosInf)
      | NaN \<Rightarrow> NaN)"

record page_meta =
  total :: jsval
  perPage :: int
  currentPage :: int
  lastPage :: jsnum

record page_result =
  data :: payload
  meta :: page_meta

text \<open>\<^verbatim>\<open>const offset = (page - 1) * perPage\<close>.\<close>

definition page_offset :: "int \<Rightarrow> int \<Rightarrow> jsnum" where
  "page_offset page per_page = js_mul (js_sub (Fin page) (Fin 1)) (Fin per_page)"

definition paginate :: "(string \<Rightarrow> jsnum) \<Rightarrow> driver \<Rightarrow> int \<Rightarrow> int \<Rightarrow> builder \<Rightarrow> world
    \<Rightarrow> (error + page_result) \<times> builder \<times> world" where
  "paginate str_num drv page per_page b w =
     (let offset = page_offset page per_page;
          (r, w1) = execute drv (countSql 4 ''*'' b) (params b) b w
      in case r of
           Inl err \<Rightarrow> (Inl err, b, w1)
         | Inr (countRows, flds) \<Rightarrow>
             (let tot = total_or_zero countRows;
                  b1 = limit (Fin per_page) (Some offset) b;
                  (r2, b2, w2) = get drv b1 w1
              in case r2 of
                   Inl err \<Rightarrow> (Inl err, b2, w2)
                 | Inr rows \<Rightarrow>
                     (Inr \<lparr>data = rows,
                           meta = \<lparr>total = tot, perPage = per_page, currentPage = page,
                                   lastPage = ceil_div (to_number str_num tot) per_page\<rparr>\<rparr>,
                      b2, w2)))"

section \<open>Raw SQL and transactions\<close>

text \<open>\<^verbatim>\<open>static async sql(query, params = [])\<close>: straight to the pool, first tuple element only.\<close>

definition sql :: "driver \<Rightarrow> string \<Rightarrow> jsval list \<Rightarrow> world \<Rightarrow> (error + payload) \<times> world" where
  "sql drv query ps w =
     ((case execute_reply drv (io w) Pool query ps of
         Inl err \<Rightarrow> Inl err
       | Inr (rows, flds) \<Rightarrow> Inr rows),
      w\<lparr>io := io w @ [Execute Pool query ps]\<rparr>)"

text \<open>
  The \<^verbatim>\<open>trx\<close> object handed to the unit of work closes over the checked-out connection:
  \<^verbatim>\<open>trx.table(name)\<close> and \<^verbatim>\<open>trx.sql(q, p = [])\<close>.
\<close>

definition trx_table :: "nat \<Rightarrow> string \<Rightarrow> builder" where
  "trx_table conn name = (DB name)\<lparr>trx := Some conn\<rparr>"

definition trx_sql :: "driver \<Rightarrow> nat \<Rightarrow> string \<Rightarrow> jsval list \<Rightarrow> world
    \<Rightarrow> (error + payload \<times> fields) \<times> world" where
  "trx_sql drv conn q p w =
     (execute_reply drv (io w) (Conn conn) q p, w\<lparr>io := io w @ [Execute (Conn conn) q p]\<rparr>)"

definition release :: "nat \<Rightarrow> world \<Rightarrow> world" where
  "release conn w = w\<lparr>io := io w @ [Release conn]\<rparr>"

text \<open>
  \<^verbatim>\<open>static async transaction(callback)\<close>. The unit of work is a function of the connection
  behind \<^verbatim>\<open>trx\<close> and of the world; \<^verbatim>\<open>try { ... } finally { conn.release() }\<close> has no
  \<^verbatim>\<open>catch\<close>, so an error leaves through \<^verbatim>\<open>finally\<close> as it is.
\<close>

definition transaction :: "driver \<Rightarrow> (nat \<Rightarrow> world \<Rightarrow> (error + 'a) \<times> world) \<Rightarrow> world
    \<Rightarrow> (error + 'a) \<times> world" where
  "transaction drv callback w =
     (let w0 = w\<lparr>io := io w @ [GetConnection]\<rparr> in
      case getConnection_reply drv (io w) of
        Inl err \<Rightarrow> (Inl err, w0)
      | Inr conn \<Rightarrow>
          (let w1 = w0\<lparr>io := io w0 @ [BeginTransaction conn]\<rparr> in
           case beginTransaction_reply drv (io w0) conn of
             Some err \<Rightarrow> (Inl err, release conn w1)
           | None \<Rightarrow>
               (let (r, w2) = callback conn w1 in
                case r of
                  Inl err \<Rightarrow> (Inl err, release conn w2)
                | Inr result \<Rightarrow>
                    (let w3 = w2\<lparr>io := io w2 @ [Commit conn]\<rparr> in
                     case commit_reply drv (io w2) conn of
                       Some err \<Rightarrow> (Inl err, release conn w3)
                     | None \<Rightarrow> (Inr result, release conn w3)))))"

section \<open>Sequences of clause calls\<close>









definition placeholders :: "string \<Rightarrow> nat" where
  "placeholders s = count_list s (CHR ''?'')"

section \<open>Outcome of an operation as seen from outside\<close>

text \<open>The returned value or error, the builder state left behind, and the driver calls made.\<close>

definition observe :: "'r \<times> builder \<times> world \<Rightarrow> 'r \<times> builder \<times> event list" where
  "observe out = (case out of (r, b, w) \<Rightarrow> (r, b, io w))"

section \<open>Example drivers and inputs\<close>

text \<open>A driver that acknowledges every write with insert id 7 and one affected row.\<close>

definition write_driver :: driver where
  "write_driver =
     \<lparr>execute_reply =
        (\<lambda>h t q p. Inr (ResultObj [(''insertId'', JNum 7), (''affectedRows'', JNum 1)], Fields [])),
      getConnection_reply = (\<lambda>h. Inr 0),
      beginTransaction_reply = (\<lambda>h c. None),
      commit_reply = (\<lambda>h c. None)\<rparr>"

text \<open>A driver that answers its first statement with a count of 25 and later ones with two rows.\<close>

definition page_driver :: driver where
  "page_driver =
     \<lparr>execute_reply =
        (\<lambda>h t q p. if h = [] then Inr (RowSet [[(''total'', JNum 25)]], Fields [''total''])
                   else Inr (RowSet [[(''id'', JNum 11)], [(''id'', JNum 12)]], Fields [''id''])),
      getConnection_reply = (\<lambda>h. Inr 0),
      beginTransaction_reply = (\<lambda>h c. None),
      commit_reply = (\<lambda>h c. None)\<rparr>"

text \<open>A driver that answers every statement with the same one-row result set.\<close>

definition select_driver :: driver where
  "select_driver =
     \<lparr>execute_reply =
        (\<lambda>h t q p. Inr (RowSet [[(''id'', JNum 1), (''status'', JStr ''active'')]],
                         Fields [''id'', ''status''])),
      getConnection_reply = (\<lambda>h. Inr 0),
      beginTransaction_reply = (\<lambda>h c. None),
      commit_reply = (\<lambda>h c. None)\<rparr>"

text \<open>The state after \<^verbatim>\<open>DB.table("users").where("age", ">", 18)\<close>.\<close>

definition adults_query :: builder where
  "adults_query = db_where ''age'' ''>'' (JNum 18) (DB ''users'')"

definition quiet_world :: world where
  "quiet_world = \<lparr>debug = False, io = [], console = []\<rparr>"

text \<open>
  The unit of work of the README's transaction example with its last line uncommented:
  one insert, then \<^verbatim>\<open>throw new Error("Fail")\<close>.
\<close>

definition failing_work :: "driver \<Rightarrow> nat \<Rightarrow> world \<Rightarrow> (error + jsval) \<times> world" where
  "failing_work drv conn w =
     (let (r, b, w') = insert_db drv [(''name'', JStr ''Transaction User'')] (trx_table conn ''users'') w
      in case r of Inl err \<Rightarrow> (Inl err, w') | Inr userId \<Rightarrow> (Inl (Error ''Fail''), w'))"

section \<open>The executor and the debug flag\<close>

lemma execute_unfold:
  "execute drv q ps b w =
     (execute_reply drv (io w) (target_of b) q ps,
      (if debug w then w\<lparr>console := console w @ [(trim (squeeze False q), ps)]\<rparr> else w)
        \<lparr>io := io w @ [Execute (target_of b) q ps]\<rparr>)"
  by (simp add: execute_def Let_def)

text \<open>
  Two worlds with the same driver history, whatever their debug flags and consoles, give
  every operation the same outcome.
\<close>

lemma get_same_io:
  "io w = io w' \<Longrightarrow> observe (get drv b w) = observe (get drv b w')"
  by (simp add: get_def observe_def execute_unfold Let_def)

lemma first_same_io:
  "io w = io w' \<Longrightarrow> observe (first drv b w) = observe (first drv b w')"
  by (simp add: first_def get_def observe_def execute_unfold Let_def)

lemma count_same_io:
  "io w = io w' \<Longrightarrow> observe (count c drv b w) = observe (count c drv b w')"
  by (simp add: count_def observe_def execute_unfold Let_def)

lemma insert_same_io:
  "io w = io w' \<Longrightarrow> observe (insert_db drv d b w) = observe (insert_db drv d b w')"
  by (simp add: insert_db_def observe_def execute_unfold Let_def split: option.splits)

lemma insertBulk_same_io:
  "io w = io w' \<Longrightarrow> observe (insertBulk drv rs b w) = observe (insertBulk drv rs b w')"
  by (simp add: insertBulk_def observe_def execute_unfold Let_def
           split: option.splits list.splits)

lemma update_same_io:
  "io w = io w' \<Longrightarrow> observe (update drv d b w) = observe (update drv d b w')"
  by (simp add: update_def observe_def execute_unfold Let_def)

lemma delete_same_io:
  "io w = io w' \<Longrightarrow> observe (delete drv b w) = observe (delete drv b w')"
  by (simp add: delete_def observe_def execute_unfold Let_def)

lemma truncate_same_io:
  "io w = io w' \<Longrightarrow> observe (truncate_table drv b w) = observe (truncate_table drv b w')"
  by (simp add: truncate_table_def observe_def execute_unfold Let_def)

lemma paginate_same_io:
  "io w = io w' \<Longrightarrow> observe (paginate sn drv p n b w) = observe (paginate sn drv p n b w')"
  by (simp add: paginate_def get_def observe_def execute_unfold Let_def
           split: sum.splits prod.splits)

text \<open>
  Claim C9. Two runs that differ only in the process-wide debug flag send the same statement
  and parameters to the same target (the pool, or the transaction connection of the builder)
  and get the same reply: for \<^verbatim>\<open>_execute\<close> itself, the driver call appended is the same and
  so is the result; for every operation built on it, the returned value or error, the
  builder state left behind and the whole sequence of driver calls are the same. Only the
  console differs. (The driver reacts to the calls made on it; it does not read the console.)
\<close>

theorem debug_flag_affects_only_console:
  "fst (execute drv q ps b (w\<lparr>debug := True\<rparr>)) = fst (execute drv q ps b (w\<lparr>debug := False\<rparr>))
   \<and> io (snd (execute drv q ps b (w\<lparr>debug := True\<rparr>))) = io w @ [Execute (target_of b) q ps]
   \<and> io (snd (execute drv q ps b (w\<lparr>debug := False\<rparr>))) = io w @ [Execute (target_of b) q ps]
   \<and> observe (get drv b (w\<lparr>debug := True\<rparr>)) = observe (get drv b (w\<lparr>debug := False\<rparr>))
   \<and> observe (first drv b (w\<lparr>debug := True\<rparr>)) = observe (first drv b (w\<lparr>debug := False\<rparr>))
   \<and> observe (count c drv b (w\<lparr>debug := True\<rparr>)) = observe (count c drv b (w\<lparr>debug := False\<rparr>))
   \<and> observe (insert_db drv d b (w\<lparr>debug := True\<rparr>))
       = observe (insert_db drv d b (w\<lparr>debug := False\<rparr>))
   \<and> observe (insertBulk drv rs b (w\<lparr>debug := True\<rparr>))
       = observe (insertBulk drv rs b (w\<lparr>debug := False\<rparr>))
   \<and> observe (update drv d b (w\<lparr>debug := True\<rparr>)) = observe (update drv d b (w\<lparr>debug := False\<rparr>))
   \<and> observe (delete drv b (w\<lparr>debug := True\<rparr>)) = observe (delete drv b (w\<lparr>debug := False\<rparr>))
   \<and> observe (truncate_table drv b (w\<lparr>debug := True\<rparr>))
       = observe (truncate_table drv b (w\<lparr>debug := False\<rparr>))
   \<and> observe (paginate sn drv p n b (w\<lparr>debug := True\<rparr>))
       = observe (paginate sn drv p n b (w\<lparr>debug := False\<rparr>))"
proof -
  have same: "io (w\<lparr>debug := True\<rparr>) = io (w\<lparr>debug := False\<rparr>)" by simp
  show ?thesis
    using get_same_io [OF same] first_same_io [OF same] count_same_io [OF same]
      insert_same_io [OF same] insertBulk_same_io [OF same] update_same_io [OF same]
      delete_same_io [OF same] truncate_same_io [OF same] paginate_same_io [OF same]
    by (simp add: execute_unfold)
qed

section \<open>UPDATE and DELETE require predicates\<close>

text \<open>
  Claim C4. On a builder with no predicate fragment, \<^verbatim>\<open>update(record)\<close> and
  \<^verbatim>\<open>delete()\<close> fail with the caller-contract errors "UPDATE requires WHERE" and
  "DELETE requires WHERE"; the world is returned as it was, so no statement has been sent
  to the pool or to a transaction connection.
\<close>

theorem update_delete_require_where:
  assumes "wheres b = []"
  shows "update drv record b w = (Inl (Error ''UPDATE requires WHERE''), b, w)
       \<and> delete drv b w = (Inl (Error ''DELETE requires WHERE''), b, w)"
  using assms by (simp add: update_def delete_def)

theorem update_delete_require_where_witness:
  "wheres (orderBy ''id'' ''DESC'' (DB ''users'')) = []
   \<and> update write_driver [(''name'', JStr ''x'')] (orderBy ''id'' ''DESC'' (DB ''users'')) quiet_world
       = (Inl (Error ''UPDATE requires WHERE''), orderBy ''id'' ''DESC'' (DB ''users''), quiet_world)
   \<and> delete write_driver (orderBy ''id'' ''DESC'' (DB ''users'')) quiet_world
       = (Inl (Error ''DELETE requires WHERE''), orderBy ''id'' ''DESC'' (DB ''users''), quiet_world)"
proof -
  have h: "wheres (orderBy ''id'' ''DESC'' (DB ''users'')) = []"
    by (simp add: orderBy_def DB_def reset_def)
  show ?thesis
    using h update_delete_require_where [OF h, of write_driver "[(''name'', JStr ''x'')]" quiet_world]
    by simp
qed

section \<open>Predicate fragments and bound parameters\<close>















section \<open>State reset by the terminal operations\<close>

lemma reset_limit: "reset (limit n off b) = reset b"
  by (simp add: reset_def limit_def)

lemma get_state: "fst (snd (get drv b w)) = reset b"
  by (simp add: get_def Let_def split: prod.splits)

lemma first_state: "fst (snd (first drv b w)) = reset b"
  by (simp add: first_def get_def Let_def reset_limit split: prod.splits)

lemma count_state: "fst (snd (count c drv b w)) = reset b"
  by (simp add: count_def Let_def split: prod.splits)

lemma update_state: "wheres b \<noteq> [] \<Longrightarrow> fst (snd (update drv d b w)) = reset b"
  by (simp add: update_def Let_def split: prod.splits)

lemma delete_state: "wheres b \<noteq> [] \<Longrightarrow> fst (snd (delete drv b w)) = reset b"
  by (simp add: delete_def Let_def split: prod.splits)

lemma paginate_state:
  "fst (execute drv (countSql 4 ''*'' b) (params b) b w) = Inr cr \<Longrightarrow>
     fst (snd (paginate sn drv p n b w)) = reset b"
  by (cases cr)
     (simp add: paginate_def get_def Let_def reset_limit execute_unfold split: prod.splits sum.splits)

lemma insert_state: "fst (snd (insert_db drv d b w)) = b"
  by (simp add: insert_db_def Let_def split: prod.splits option.splits)

lemma insertBulk_state: "fst (snd (insertBulk drv rs b w)) = b"
  by (simp add: insertBulk_def Let_def split: prod.splits option.splits list.splits)

lemma truncate_state: "fst (snd (truncate_table drv b w)) = b"
  by (simp add: truncate_table_def split: prod.splits)

lemma buildSelect_reset:
  "buildSelect (reset b) =
     nl @ ind 6 @ ''SELECT *'' @ nl @ ind 6 @ ''FROM '' @ table b
     @ nl @ ind 6 @ nl @ ind 6 @ nl @ ind 6 @ nl @ ind 6 @ nl @ ind 4"
  by (simp add: buildSelect_def whereClause_def reset_def)

lemma get_io: "io (snd (snd (get drv b w))) = io w @ [Execute (target_of b) (buildSelect b) (params b)]"
  by (simp add: get_def Let_def execute_unfold)

lemma target_of_reset: "target_of (reset b) = target_of b"
  by (simp add: target_of_def reset_def)

lemma params_reset: "params (reset b) = []"
  by (simp add: reset_def)

text \<open>
  Claim C3, as amended. \<^verbatim>\<open>get\<close>, \<^verbatim>\<open>first\<close> and \<^verbatim>\<open>count\<close> leave the accumulated state
  in the empty form on every exit, and so do \<^verbatim>\<open>update\<close> and \<^verbatim>\<open>delete\<close> on a builder
  that has predicate fragments, and \<^verbatim>\<open>paginate\<close> once its COUNT statement has succeeded.
  \<^verbatim>\<open>insert\<close>, \<^verbatim>\<open>insertBulk\<close> and \<^verbatim>\<open>truncate\<close> leave the accumulated state as it was.
  After \<^verbatim>\<open>get()\<close>, a second \<^verbatim>\<open>get()\<close> with no clause call in between sends the
  unfiltered, unordered, unlimited \<^verbatim>\<open>SELECT * FROM table\<close> with no parameters.
\<close>

theorem terminal_operations_reset:
  "fst (snd (get drv b w)) = reset b
   \<and> fst (snd (first drv b w)) = reset b
   \<and> fst (snd (count c drv b w)) = reset b
   \<and> (wheres b \<noteq> [] \<longrightarrow>
        fst (snd (update drv d b w)) = reset b \<and> fst (snd (delete drv b w)) = reset b)
   \<and> (\<forall>cr. fst (execute drv (countSql 4 ''*'' b) (params b) b w) = Inr cr \<longrightarrow>
        fst (snd (paginate sn drv p n b w)) = reset b)
   \<and> fst (snd (insert_db drv d b w)) = b
   \<and> fst (snd (insertBulk drv rs b w)) = b
   \<and> fst (snd (truncate_table drv b w)) = b
   \<and> io (snd (snd (get drv (fst (snd (get drv b w))) (snd (snd (get drv b w))))))
       = io (snd (snd (get drv b w)))
         @ [Execute (target_of b)
              (nl @ ind 6 @ ''SELECT *'' @ nl @ ind 6 @ ''FROM '' @ table b
               @ nl @ ind 6 @ nl @ ind 6 @ nl @ ind 6 @ nl @ ind 6 @ nl @ ind 4) []]"
proof -
  have second:
    "io (snd (snd (get drv (fst (snd (get drv b w))) (snd (snd (get drv b w))))))
       = io (snd (snd (get drv b w)))
         @ [Execute (target_of b)
              (nl @ ind 6 @ ''SELECT *'' @ nl @ ind 6 @ ''FROM '' @ table b
               @ nl @ ind 6 @ nl @ ind 6 @ nl @ ind 6 @ nl @ ind 6 @ nl @ ind 4) []]"
    unfolding get_state get_io [of drv "reset b"] buildSelect_reset target_of_reset params_reset
    by simp
  show ?thesis
    using second paginate_state [of drv b w _ sn p n]
    by (simp add: get_state first_state count_state update_state delete_state insert_state
          insertBulk_state truncate_state)
qed

theorem terminal_operations_reset_witness:
  "wheres adults_query \<noteq> []
   \<and> fst (execute page_driver (countSql 4 ''*'' adults_query) (params adults_query)
            adults_query quiet_world)
       = Inr (RowSet [[(''total'', JNum 25)]], Fields [''total''])
   \<and> fst (snd (update page_driver [(''status'', JStr ''adult'')] adults_query quiet_world))
       = reset adults_query
   \<and> fst (snd (delete page_driver adults_query quiet_world)) = reset adults_query
   \<and> fst (snd (paginate (\<lambda>s. NaN) page_driver 2 10 adults_query quiet_world))
       = reset adults_query
   \<and> reset adults_query = DB ''users''"
proof -
  have h1: "wheres adults_query \<noteq> []"
    by (simp add: adults_query_def db_where_def)
  have h2: "fst (execute page_driver (countSql 4 ''*'' adults_query) (params adults_query)
                  adults_query quiet_world)
            = Inr (RowSet [[(''total'', JNum 25)]], Fields [''total''])"
    by (simp add: execute_unfold page_driver_def quiet_world_def)
  have h3: "reset adults_query = DB ''users''"
    by (simp add: adults_query_def db_where_def DB_def reset_def)
  show ?thesis
    using h1 h2 h3
      terminal_operations_reset [of page_driver adults_query quiet_world "''*''"
        "[(''status'', JStr ''adult'')]" "\<lambda>s. NaN" 2 10 "[]"]
    by simp
qed

text \<open>
  The claim as stated fails for \<^verbatim>\<open>truncate\<close> and \<^verbatim>\<open>insert\<close>: a predicate accumulated
  before them is still there afterwards, while the empty form has none.
\<close>

theorem terminal_operations_reset_counterexample:
  "wheres (fst (snd (truncate_table write_driver (db_where ''id'' ''='' (JNum 1) (DB ''logs''))
      quiet_world))) = [''id = ?'']
   \<and> params (fst (snd (insert_db write_driver [(''name'', JStr ''x'')]
      (db_where ''id'' ''='' (JNum 1) (DB ''logs'')) quiet_world))) = [JNum 1]
   \<and> wheres (reset (db_where ''id'' ''='' (JNum 1) (DB ''logs''))) = []
   \<and> params (reset (db_where ''id'' ''='' (JNum 1) (DB ''logs''))) = []"
  by (simp add: truncate_state insert_state db_where_def DB_def reset_def)

section \<open>Properties of the number model\<close>

lemma to_double_small: "\<bar>x\<bar> < 2 ^ 53 \<Longrightarrow> to_double x = Fin x"
  by (simp add: to_double_def)

lemma bit_length_bounds:
  "0 < n \<Longrightarrow> 2 ^ (bit_length n - 1) \<le> n \<and> n < 2 ^ bit_length n"
proof (induction n rule: bit_length.induct)
  case (1 n)
  show ?case
  proof (cases "n div 2 = 0")
    case True
    with "1.prems" have "n = 1" by presburger
    then show ?thesis by (simp add: bit_length.simps)
  next
    case False
    with "1.prems" have pos: "0 < n div 2" by presburger
    from "1.IH" [OF _ pos] "1.prems"
    have ih: "2 ^ (bit_length (n div 2) - 1) \<le> n div 2" "n div 2 < 2 ^ bit_length (n div 2)"
      by simp_all
    have bl: "bit_length n = Suc (bit_length (n div 2))"
      using "1.prems" by (subst bit_length.simps) simp
    have blpos: "0 < bit_length (n div 2)"
      using pos by (subst bit_length.simps) simp
    then obtain k where k: "bit_length (n div 2) = Suc k" by (cases "bit_length (n div 2)") auto
    have n2: "2 * (n div 2) \<le> n" "n \<le> 2 * (n div 2) + 1"
      by presburger+
    from ih k have a: "2 ^ k \<le> n div 2" "n div 2 < 2 * 2 ^ k"
      by simp_all
    from n2 a have "2 * 2 ^ k \<le> n" "n < 2 * (2 * 2 ^ k)"
      by linarith+
    then show ?thesis by (simp add: bl k)
  qed
qed

lemma bit_length_pos: "0 < n \<Longrightarrow> 0 < bit_length n"
  by (subst bit_length.simps) simp

lemma round_half_even_cases:
  assumes "0 < den"
  shows "(round_half_even num den = num div den \<and> 2 * (num mod den) \<le> den)
       \<or> (round_half_even num den = num div den + 1 \<and> den \<le> 2 * (num mod den))"
  by (auto simp: round_half_even_def Let_def)

lemma round_ceiling:
  assumes B: "0 < B" and S: "0 < S" and BS: "B < 2 * S"
  shows "- ((- round_half_even (A * S) B) div S) = - ((- A) div B)"
proof -
  define c where "c = - ((- A) div B)"
  define m0 where "m0 = (A * S) div B"
  define r where "r = (A * S) mod B"
  define m where "m = round_half_even (A * S) B"
  have split: "A * S = m0 * B + r" and r: "0 \<le> r" "r < B"
    using B by (simp_all add: m0_def r_def)
  have cases: "(m = m0 \<and> 2 * r \<le> B) \<or> (m = m0 + 1 \<and> B \<le> 2 * r)"
    using round_half_even_cases [OF B, of "A * S"] by (simp add: m_def m0_def r_def)
  have ceil: "(c - 1) * B < A" "A \<le> c * B"
  proof -
    have "real_of_int c = \<lceil>real_of_int A / real_of_int B\<rceil>"
      by (simp add: c_def ceiling_divide_eq_div)
    then have "real_of_int c - 1 < real_of_int A / real_of_int B"
      and "real_of_int A / real_of_int B \<le> real_of_int c"
      by linarith+
    with B have "(real_of_int c - 1) * real_of_int B < real_of_int A"
      and "real_of_int A \<le> real_of_int c * real_of_int B"
      by (simp_all add: pos_less_divide_eq pos_divide_le_eq)
    then have "real_of_int ((c - 1) * B) < real_of_int A"
      and "real_of_int A \<le> real_of_int (c * B)"
      by simp_all
    then show "(c - 1) * B < A" "A \<le> c * B"
      by (simp_all only: of_int_less_iff of_int_le_iff)
  qed
  have upper: "m \<le> c * S"
  proof -
    from ceil(2) S have "A * S \<le> (c * B) * S" by (intro mult_right_mono) simp_all
    then have le: "m0 * B + r \<le> (c * S) * B" by (simp add: split ac_simps)
    from cases show ?thesis
    proof
      assume "m = m0 \<and> 2 * r \<le> B"
      with le r have "m0 * B \<le> (c * S) * B" by linarith
      with B have "m0 \<le> c * S" by (auto simp: mult_le_cancel_right)
      with \<open>m = m0 \<and> 2 * r \<le> B\<close> show ?thesis by simp
    next
      assume up: "m = m0 + 1 \<and> B \<le> 2 * r"
      with B have "0 < r" by linarith
      with le have "m0 * B < (c * S) * B" by linarith
      with B have "m0 < c * S" by (auto simp: mult_less_cancel_right)
      with up show ?thesis by simp
    qed
  qed
  have lower: "(c - 1) * S < m"
  proof (rule ccontr)
    assume "\<not> (c - 1) * S < m"
    then have mle: "m \<le> (c - 1) * S" by simp
    from cases have m0m: "m0 \<le> m" by auto
    from ceil(1) have "(c - 1) * B + 1 \<le> A" by simp
    with S have "((c - 1) * B + 1) * S \<le> A * S" by (intro mult_right_mono) simp_all
    then have ge: "((c - 1) * S) * B + S \<le> m0 * B + r"
      by (simp add: split algebra_simps)
    show False
    proof (cases "m0 = (c - 1) * S")
      case True
      with ge have "S \<le> r" by simp
      with BS have "B < 2 * r" by linarith
      with cases have "m = m0 + 1" by auto
      with True mle show False by simp
    next
      case False
      with m0m mle have "m0 + 1 \<le> (c - 1) * S" by linarith
      with B have "(m0 + 1) * B \<le> ((c - 1) * S) * B" by (intro mult_right_mono) simp_all
      then have "m0 * B + B \<le> ((c - 1) * S) * B" by (simp add: algebra_simps)
      with ge S have "B < r" by linarith
      with r show False by simp
    qed
  qed
  have "real_of_int c = \<lceil>real_of_int m / real_of_int S\<rceil>"
  proof -
    from lower upper have "real_of_int ((c - 1) * S) < real_of_int m"
      and "real_of_int m \<le> real_of_int (c * S)"
      by (simp_all only: of_int_less_iff of_int_le_iff)
    with S have "real_of_int c - 1 < real_of_int m / real_of_int S"
      and "real_of_int m / real_of_int S \<le> real_of_int c"
      by (simp_all add: pos_less_divide_eq pos_divide_le_eq)
    then have "\<lceil>real_of_int m / real_of_int S\<rceil> = c"
      by (intro ceiling_unique) simp_all
    then show ?thesis by simp
  qed
  then have "c = - ((- m) div S)"
    by (simp add: ceiling_divide_eq_div)
  then show ?thesis by (simp add: c_def m_def)
qed

lemma bit_length_le:
  assumes "0 < n" and "n < 2 ^ k"
  shows "bit_length n \<le> k"
proof -
  from bit_length_bounds [OF assms(1)] assms(2)
  have "(2::int) ^ (bit_length n - 1) < 2 ^ k" by linarith
  then have "bit_length n - 1 < k" by (simp add: power_strict_increasing_iff)
  then show ?thesis by simp
qed

lemma quotient_exponent_lower:
  assumes A: "0 < A" and B: "0 < B"
    and L: "L = int (bit_length A) - int (bit_length B)"
  shows "B * 2 ^ nat (L - 1) \<le> A * 2 ^ nat (1 - L)"
proof -
  from bit_length_bounds [OF A] have a: "2 ^ (bit_length A - 1) \<le> A" by simp
  from bit_length_bounds [OF B] have b: "B \<le> 2 ^ bit_length B" by simp
  from bit_length_pos [OF A] have apos: "0 < bit_length A" .
  show ?thesis
  proof (cases "1 \<le> L")
    case True
    then have e: "bit_length B + nat (L - 1) = bit_length A - 1" "nat (1 - L) = 0"
      using L by simp_all
    have "B * 2 ^ nat (L - 1) \<le> 2 ^ bit_length B * 2 ^ nat (L - 1)"
      using b by (intro mult_right_mono) simp_all
    also have "\<dots> = 2 ^ (bit_length A - 1)"
      by (simp add: power_add [symmetric] e)
    also have "\<dots> \<le> A" by (rule a)
    finally show ?thesis by (simp add: e)
  next
    case False
    then have e: "bit_length B = (bit_length A - 1) + nat (1 - L)" "nat (L - 1) = 0"
      using L apos by simp_all
    have "B \<le> 2 ^ (bit_length A - 1) * 2 ^ nat (1 - L)"
      using b by (subst (asm) e(1)) (simp add: power_add)
    also have "\<dots> \<le> A * 2 ^ nat (1 - L)"
      using a by (intro mult_right_mono) simp_all
    finally show ?thesis by (simp add: e)
  qed
qed

lemma double_quotient_small:
  assumes A: "0 < A" "A < 2 ^ 53" and B: "0 < B" "B < 2 ^ 53"
  shows "snd (double_quotient A B) \<le> 0
       \<and> B < 2 * 2 ^ nat (- snd (double_quotient A B))
       \<and> fst (double_quotient A B)
           = round_half_even (A * 2 ^ nat (- snd (double_quotient A B))) B"
proof -
  define L where "L = int (bit_length A) - int (bit_length B)"
  define p where "p = (if B * 2 ^ nat L \<le> A * 2 ^ nat (- L) then L else L - 1)"
  define e where "e = max (p - 52) (- 1074)"
  have dq: "double_quotient A B
              = (round_half_even (A * 2 ^ nat (- e)) (B * 2 ^ nat e), e)"
    by (simp add: double_quotient_def Let_def L_def p_def e_def)
  have qlow: "B * 2 ^ nat p \<le> A * 2 ^ nat (- p)"
  proof (cases "B * 2 ^ nat L \<le> A * 2 ^ nat (- L)")
    case True
    then show ?thesis by (simp add: p_def)
  next
    case False
    then have "p = L - 1" by (simp add: p_def)
    with quotient_exponent_lower [OF A(1) B(1) L_def] show ?thesis by simp
  qed
  have p52: "p \<le> 52"
  proof (rule ccontr)
    assume "\<not> p \<le> 52"
    then have big: "53 \<le> p" by simp
    then have "nat (- p) = 0" by simp
    with qlow have "B * 2 ^ nat p \<le> A" by simp
    moreover have "(2::int) ^ 53 \<le> 2 ^ nat p"
      using big by (intro power_increasing) simp_all
    moreover have "1 * (2::int) ^ nat p \<le> B * 2 ^ nat p"
      using B(1) by (intro mult_right_mono) simp_all
    ultimately show False using A(2) by simp
  qed
  then have e0: "e \<le> 0" by (simp add: e_def)
  have bound: "B < 2 * 2 ^ nat (- e)"
  proof (cases "- 1074 \<le> p - 52")
    case False
    then have "e = - 1074" by (simp add: e_def)
    moreover have "(2::int) ^ 53 \<le> 2 * 2 ^ 1074" by simp
    ultimately show ?thesis using B(2) by simp
  next
    case True
    then have e: "nat (- e) = nat (52 - p)" by (simp add: e_def)
    show ?thesis
    proof (cases "0 \<le> p")
      case True
      then have z: "nat (- p) = 0" and s: "Suc (nat (52 - p) + nat p) = 53"
        using p52 by simp_all
      from qlow z A(2) have "B * 2 ^ nat p < 2 ^ 53" by simp
      also have "(2::int) ^ 53 = 2 ^ Suc (nat (52 - p) + nat p)"
        by (simp only: s)
      also have "\<dots> = (2 * 2 ^ nat (52 - p)) * 2 ^ nat p"
        by (simp add: power_add)
      finally have "B * 2 ^ nat p < (2 * 2 ^ nat (52 - p)) * 2 ^ nat p" .
      then have "B < 2 * 2 ^ nat (52 - p)"
        by (simp only: mult_less_cancel_right) simp
      then show ?thesis by (simp add: e)
    next
      case False
      then have z: "nat p = 0" and s: "nat (52 - p) = 52 + nat (- p)"
        by simp_all
      from qlow z have "B \<le> A * 2 ^ nat (- p)" by simp
      also have "\<dots> < 2 ^ 53 * 2 ^ nat (- p)"
        using A(2) by (intro mult_strict_right_mono) simp_all
      also have "\<dots> = 2 * 2 ^ nat (52 - p)"
        by (simp add: s power_add)
      finally show ?thesis by (simp add: e)
    qed
  qed
  from e0 have "nat e = 0" by simp
  with dq e0 bound show ?thesis by simp
qed

lemma ceil_quotient_exact:
  assumes "0 \<le> t" "t < 2 ^ 53" "1 \<le> d" "d < 2 ^ 53"
  shows "ceil_quotient t d = Fin (- ((- t) div d))"
proof (cases "t = 0")
  case True
  then show ?thesis by (simp add: ceil_quotient_def)
next
  case False
  with assms have A: "0 < t" "t < 2 ^ 53" and B: "0 < d" "d < 2 ^ 53" by simp_all
  obtain m e where me: "double_quotient t d = (m, e)" by (cases "double_quotient t d")
  from double_quotient_small [OF A B] me
  have e0: "e \<le> 0" and bound: "d < 2 * 2 ^ nat (- e)"
    and m: "m = round_half_even (t * 2 ^ nat (- e)) d"
    by simp_all
  have rc: "- ((- m) div 2 ^ nat (- e)) = - ((- t) div d)"
    unfolding m by (rule round_ceiling [OF B(1) _ bound]) simp
  have abs: "\<bar>t\<bar> = t" "\<bar>d\<bar> = d" using A B by simp_all
  show ?thesis
  proof (cases "e = 0")
    case True
    with rc have mv: "m = - ((- t) div d)" by simp
    have "\<lceil>real_of_int t / real_of_int d\<rceil> \<le> \<lceil>real_of_int t\<rceil>"
      using A(1) B(1) assms(3) by (intro ceiling_mono) (simp add: pos_divide_le_eq)
    then have "- ((- t) div d) \<le> t"
      by (simp add: ceiling_divide_eq_div)
    moreover have "(2::int) ^ 53 \<le> 2 ^ 1024" by simp
    ultimately have "m < 2 ^ 1024"
      using A(2) unfolding mv by linarith
    with True mv A B show ?thesis
      by (simp add: ceil_quotient_def abs me)
  next
    case False
    with e0 have "e < 0" by simp
    with rc A B show ?thesis
      by (simp add: ceil_quotient_def abs me)
  qed
qed

lemma to_double_negative:
  assumes "x < 0"
  shows "js_sign (to_double x) = - 1"
proof (cases "\<bar>x\<bar> < 2 ^ 53")
  case True
  with assms show ?thesis by (simp add: to_double_def js_sign_def)
next
  case False
  define a where "a = \<bar>x\<bar>"
  define e where "e = bit_length a - 53"
  define v where "v = round_half_even a (2 ^ e) * 2 ^ e"
  from False have big: "2 ^ 53 \<le> a" by (simp add: a_def)
  moreover have "(0::int) < 2 ^ 53" by simp
  ultimately have apos: "0 < a" by linarith
  from bit_length_bounds [OF apos] have low: "2 ^ (bit_length a - 1) \<le> a" by simp
  have "(2::int) ^ e \<le> 2 ^ (bit_length a - 1)"
    by (intro power_increasing) (simp_all add: e_def)
  with low have "2 ^ e \<le> a" by linarith
  then have "0 < a div 2 ^ e" by (simp add: pos_imp_zdiv_pos_iff)
  moreover have "a div 2 ^ e \<le> round_half_even a (2 ^ e)"
    using round_half_even_cases [of "2 ^ e" a] by auto
  ultimately have "0 < round_half_even a (2 ^ e)" by linarith
  then have vpos: "0 < v" by (simp add: v_def)
  have "to_double x = (if 2 ^ 1024 \<le> v then NegInf else Fin (- v))"
    using False assms by (simp add: to_double_def Let_def a_def e_def v_def)
  with vpos show ?thesis by (simp add: js_sign_def)
qed

lemma page_offset_exact:
  assumes "\<bar>page - 1\<bar> < 2 ^ 53" and "\<bar>(page - 1) * per_page\<bar> < 2 ^ 53"
  shows "page_offset page per_page = Fin ((page - 1) * per_page)"
  using assms by (simp add: page_offset_def js_sub_def js_mul_def to_double_small)

lemma page_offset_negative:
  assumes "page \<le> 0" and "1 \<le> per_page"
  shows "js_sign (page_offset page per_page) = - 1"
proof -
  from assms(1) have s: "js_sign (to_double (page - 1)) = - 1"
    by (intro to_double_negative) simp
  show ?thesis
  proof (cases "to_double (page - 1)")
    case (Fin a)
    with s have "a < 0" by (simp add: js_sign_def sgn_if split: if_splits)
    with assms(2) have "a * per_page < 0" by (intro mult_neg_pos) simp_all
    then have "js_sign (to_double (a * per_page)) = - 1" by (rule to_double_negative)
    with Fin show ?thesis by (simp add: page_offset_def js_sub_def js_mul_def)
  next
    case PosInf
    with s show ?thesis by (simp add: js_sign_def)
  next
    case NegInf
    with assms(2) show ?thesis
      by (simp add: page_offset_def js_sub_def js_mul_def js_sign_def sgn_if)
  next
    case NaN
    with s show ?thesis by (simp add: js_sign_def)
  qed
qed


lemma ceil_div_exact:
  assumes "0 \<le> t" "t < 2 ^ 53" "1 \<le> d" "d < 2 ^ 53"
  shows "ceil_div (Fin t) d = Fin \<lceil>real_of_int t / real_of_int d\<rceil>"
  using assms ceil_quotient_exact [OF assms]
  by (simp add: ceil_div_def ceiling_divide_eq_div)

lemma num_str_10: "num_str (Fin 10) = ''10''"
  by (simp add: num_str_def abs_str_def dec_str.simps)


lemma num_str_minus_10: "num_str (Fin (- 10)) = ''-10''"
  by (simp add: num_str_def abs_str_def dec_str.simps)

lemma num_str_minus_20: "num_str (Fin (- 20)) = ''-20''"
  by (simp add: num_str_def abs_str_def dec_str.simps)

section \<open>Properties of pagination\<close>

lemma target_of_limit: "target_of (limit n off b) = target_of b"
  by (simp add: target_of_def limit_def)

lemma params_limit: "params (limit n off b) = params b"
  by (simp add: limit_def)

lemma paginate_count_fails:
  assumes "execute_reply drv (io w) (target_of b) (countSql 4 ''*'' b) (params b) = Inl err"
  shows "observe (paginate sn drv page per_page b w)
           = (Inl err, b, io w @ [Execute (target_of b) (countSql 4 ''*'' b) (params b)])"
  using assms by (simp add: paginate_def observe_def execute_unfold Let_def)

lemma paginate_count_ok:
  assumes "execute_reply drv (io w) (target_of b) (countSql 4 ''*'' b) (params b)
             = Inr (countRows, f1)"
  shows "observe (paginate sn drv page per_page b w)
           = ((case execute_reply drv
                      (io w @ [Execute (target_of b) (countSql 4 ''*'' b) (params b)])
                      (target_of b)
                      (buildSelect (limit (Fin per_page) (Some (page_offset page per_page)) b))
                      (params b) of
                 Inl err \<Rightarrow> Inl (Error (''GET failed: '' @ message err))
               | Inr (rows, f2) \<Rightarrow>
                   Inr \<lparr>data = rows,
                        meta = \<lparr>total = total_or_zero countRows, perPage = per_page,
                                currentPage = page,
                                lastPage = ceil_div (to_number sn (total_or_zero countRows))
                                             per_page\<rparr>\<rparr>),
              reset b,
              io w @ [Execute (target_of b) (countSql 4 ''*'' b) (params b),
                      Execute (target_of b)
                        (buildSelect (limit (Fin per_page) (Some (page_offset page per_page)) b))
                        (params b)])"
  using assms
  by (simp add: paginate_def get_def observe_def execute_unfold Let_def target_of_limit
        params_limit reset_limit split: sum.splits prod.splits)



lemma limitVal_limit:
  "limitVal (limit n (Some off) b) = ''LIMIT '' @ num_str off @ '', '' @ num_str n"
  by (simp add: limit_def)

text \<open>The total that \<^verbatim>\<open>countRows[0]?.total || 0\<close> reads from the driver's reply.\<close>

lemma total_or_zero_row:
  "get_prop row ''total'' = JNum t \<Longrightarrow> total_or_zero (RowSet (row # rest)) = JNum t"
  by (simp add: total_or_zero_def truthy_def)

lemma total_or_zero_no_row: "total_or_zero (RowSet []) = JNum 0"
  by (simp add: total_or_zero_def truthy_def)






text \<open>
  Claim C5, as amended. \<^verbatim>\<open>paginate\<close> does not check its arguments. With \<open>page \<le> 0\<close> or
  \<open>perPage \<le> 0\<close> it still sends the COUNT statement; when that fails the driver's error
  is the outcome, and when it succeeds the data statement is sent with
  \<^verbatim>\<open>LIMIT (page - 1) * perPage, perPage\<close> (a negative offset when \<open>page \<le> 0\<close> and
  \<open>perPage \<ge> 1\<close>) and the outcome is that of this statement.
\<close>

theorem paginate_unchecked_arguments:
  assumes "page \<le> 0 \<or> per_page \<le> 0"
  shows "(\<forall>err. execute_reply drv (io w) (target_of b) (countSql 4 ''*'' b) (params b) = Inl err
            \<longrightarrow> observe (paginate sn drv page per_page b w)
                 = (Inl err, b, io w @ [Execute (target_of b) (countSql 4 ''*'' b) (params b)]))
       \<and> (\<forall>countRows f1.
            execute_reply drv (io w) (target_of b) (countSql 4 ''*'' b) (params b)
              = Inr (countRows, f1)
            \<longrightarrow> observe (paginate sn drv page per_page b w)
                 = ((case execute_reply drv
                           (io w @ [Execute (target_of b) (countSql 4 ''*'' b) (params b)])
                           (target_of b)
                           (buildSelect
                              (limit (Fin per_page) (Some (page_offset page per_page)) b))
                           (params b) of
                      Inl err \<Rightarrow> Inl (Error (''GET failed: '' @ message err))
                    | Inr (rows, f2) \<Rightarrow>
                        Inr \<lparr>data = rows,
                             meta = \<lparr>total = total_or_zero countRows, perPage = per_page,
                                     currentPage = page,
                                     lastPage = ceil_div (to_number sn (total_or_zero countRows))
                                                  per_page\<rparr>\<rparr>),
                    reset b,
                    io w @ [Execute (target_of b) (countSql 4 ''*'' b) (params b),
                            Execute (target_of b)
                              (buildSelect
                                 (limit (Fin per_page) (Some (page_offset page per_page)) b))
                              (params b)]))
       \<and> limitVal (limit (Fin per_page) (Some (page_offset page per_page)) b)
           = ''LIMIT '' @ num_str (page_offset page per_page) @ '', '' @ num_str (Fin per_page)
       \<and> (page \<le> 0 \<and> 1 \<le> per_page \<longrightarrow>
            (page - 1) * per_page < 0 \<and> js_sign (page_offset page per_page) = - 1)"
proof -
  have neg: "(page - 1) * per_page < 0" if "page \<le> 0" "1 \<le> per_page"
    using that by (intro mult_neg_pos) simp_all
  show ?thesis
    using neg page_offset_negative [of page per_page]
    by (simp add: paginate_count_fails paginate_count_ok limitVal_limit)
qed

theorem paginate_unchecked_arguments_witness:
  "((0::int) \<le> 0 \<or> (10::int) \<le> 0)
   \<and> execute_reply page_driver (io quiet_world) (target_of (DB ''users''))
         (countSql 4 ''*'' (DB ''users'')) (params (DB ''users''))
       = Inr (RowSet [[(''total'', JNum 25)]], Fields [''total''])
   \<and> page_offset 0 10 = Fin (- 10)
   \<and> observe (paginate (\<lambda>s. NaN) page_driver 0 10 (DB ''users'') quiet_world)
       = (Inr \<lparr>data = RowSet [[(''id'', JNum 11)], [(''id'', JNum 12)]],
               meta = \<lparr>total = JNum 25, perPage = 10, currentPage = 0, lastPage = Fin 3\<rparr>\<rparr>,
          DB ''users'',
          [Execute Pool (countSql 4 ''*'' (DB ''users'')) [],
           Execute Pool (buildSelect (limit (Fin 10) (Some (Fin (- 10))) (DB ''users''))) []])
   \<and> limitVal (limit (Fin 10) (Some (Fin (- 10))) (DB ''users'')) = ''LIMIT -10, 10''"
proof -
  have h0: "(0::int) \<le> 0 \<or> (10::int) \<le> 0" by simp
  have h1: "execute_reply page_driver (io quiet_world) (target_of (DB ''users''))
         (countSql 4 ''*'' (DB ''users'')) (params (DB ''users''))
       = Inr (RowSet [[(''total'', JNum 25)]], Fields [''total''])"
    by (simp add: page_driver_def quiet_world_def)
  have off: "page_offset 0 10 = Fin (- 10)"
    by (simp add: page_offset_exact)
  have b: "target_of (DB ''users'') = Pool" "params (DB ''users'') = []"
    "reset (DB ''users'') = DB ''users''" "io quiet_world = []"
    by (simp_all add: DB_def reset_def target_of_def quiet_world_def)
  have t: "total_or_zero (RowSet [[(''total'', JNum 25)]]) = JNum 25"
    by (simp add: total_or_zero_row get_prop_def)
  have d: "execute_reply page_driver [Execute Pool (countSql 4 ''*'' (DB ''users'')) []] Pool
             (buildSelect (limit (Fin 10) (Some (Fin (- 10))) (DB ''users''))) []
           = Inr (RowSet [[(''id'', JNum 11)], [(''id'', JNum 12)]], Fields [''id''])"
    by (simp add: page_driver_def)
  have l: "ceil_div (Fin 25) 10 = Fin 3"
    by (simp add: ceil_div_exact)
  show ?thesis
    using h0 h1 off
      paginate_unchecked_arguments [OF h0, of page_driver quiet_world "DB ''users''" "\<lambda>s. NaN"]
    by (simp add: b t d l to_number_def num_str_10 num_str_minus_10)
qed

text \<open>
  The claim as stated fails: \<^verbatim>\<open>paginate(-1, 10)\<close> is not rejected; both statements reach
  the driver, the second with offset \<open>-20\<close>, and a page is returned.
\<close>

theorem paginate_rejection_counterexample:
  "observe (paginate (\<lambda>s. NaN) page_driver (- 1) 10 (DB ''users'') quiet_world)
     = (Inr \<lparr>data = RowSet [[(''id'', JNum 11)], [(''id'', JNum 12)]],
             meta = \<lparr>total = JNum 25, perPage = 10, currentPage = - 1, lastPage = Fin 3\<rparr>\<rparr>,
        DB ''users'',
        [Execute Pool
           (nl @ ind 6 @ ''SELECT COUNT(*) as total'' @ nl @ ind 6 @ ''FROM users''
            @ nl @ ind 6 @ nl @ ind 6 @ nl @ ind 4) [],
         Execute Pool
           (nl @ ind 6 @ ''SELECT *'' @ nl @ ind 6 @ ''FROM users''
            @ nl @ ind 6 @ nl @ ind 6 @ nl @ ind 6 @ nl @ ind 6 @ ''LIMIT -20, 10''
            @ nl @ ind 4) []])"
proof -
  have off: "page_offset (- 1) 10 = Fin (- 20)"
    by (simp add: page_offset_exact)
  have l: "ceil_div (Fin 25) 10 = Fin 3"
    by (simp add: ceil_div_exact)
  show ?thesis
    by (simp add: paginate_def get_def observe_def execute_unfold Let_def page_driver_def
          quiet_world_def DB_def reset_def target_of_def limit_def countSql_def buildSelect_def
          whereClause_def total_or_zero_def get_prop_def truthy_def to_number_def off l
          num_str_minus_20 num_str_10)
qed

section \<open>UPDATE without predicates and the state reset\<close>

text \<open>
  Claim C7. \<^verbatim>\<open>update(record)\<close> is to reset the accumulated state on every exit path,
  the failure for missing predicate fragments included. The code resets in the
  \<^verbatim>\<open>finally\<close> of a \<^verbatim>\<open>try\<close> that starts after the predicate check, so the check throws
  past it: after \<^verbatim>\<open>DB.table("users").orderBy("id", "DESC").update({name: "x"})\<close> the
  error is "UPDATE requires WHERE" and the order clause is still set, where the empty form
  has none.
\<close>

theorem update_without_where_keeps_state:
  "update write_driver [(''name'', JStr ''x'')] (orderBy ''id'' ''DESC'' (DB ''users'')) quiet_world
     = (Inl (Error ''UPDATE requires WHERE''),
        \<lparr>table = ''users'', trx = None, selectCols = ''*'', joins = [], wheres = [],
         params = [], order = ''ORDER BY id DESC'', limitVal = ''''\<rparr>,
        quiet_world)
   \<and> reset (orderBy ''id'' ''DESC'' (DB ''users''))
     = \<lparr>table = ''users'', trx = None, selectCols = ''*'', joins = [], wheres = [],
        params = [], order = '''', limitVal = ''''\<rparr>"
  by (simp add: update_def orderBy_def DB_def reset_def)

section \<open>Bulk insert\<close>

text \<open>
  What the validation loops of \<^verbatim>\<open>insertBulk\<close> accept: every row has every key of the
  first row, own or inherited, with a value other than \<^verbatim>\<open>undefined\<close>. Keys a later row
  has beyond those of the first row are not looked at.
\<close>

lemma check_keys_None:
  "check_keys ks row i = None \<longleftrightarrow> (\<forall>k \<in> set ks. has_key k row \<and> get_prop row k \<noteq> JUndefined)"
  by (induction ks) auto

lemma check_rows_None:
  "check_rows ks rows i = None \<longleftrightarrow>
     (\<forall>row \<in> set rows. \<forall>k \<in> set ks. has_key k row \<and> get_prop row k \<noteq> JUndefined)"
proof (induction rows arbitrary: i)
  case Nil
  show ?case by simp
next
  case (Cons row rows)
  show ?case
  proof (cases "check_keys ks row i")
    case None
    with Cons.IH [of "Suc i"] check_keys_None [of ks row i] show ?thesis by simp
  next
    case (Some err)
    with check_keys_None [of ks row i]
    have "\<not> (\<forall>k \<in> set ks. has_key k row \<and> get_prop row k \<noteq> JUndefined)"
      by simp
    with Some show ?thesis by auto
  qed
qed

lemma insertBulk_empty:
  "insertBulk drv [] b w
     = (Inl (Error ''BULK INSERT failed: insertBulk requires a non-empty array''), b, w)"
  by (simp add: insertBulk_def)

lemma insertBulk_rejected:
  "check_rows (keys row0) (row0 # rows) 0 = Some err \<Longrightarrow>
     insertBulk drv (row0 # rows) b w = (Inl (Error (''BULK INSERT failed: '' @ message err)), b, w)"
  by (simp add: insertBulk_def)

lemma insertBulk_sent:
  "check_rows (keys row0) (row0 # rows) 0 = None \<Longrightarrow>
     observe (insertBulk drv (row0 # rows) b w)
       = ((case execute_reply drv (io w) (target_of b)
                  (insertBulkSql (table b) (keys row0) (row0 # rows))
                  (flatten_values (keys row0) (row0 # rows)) of
             Inl err \<Rightarrow> Inl (Error (''BULK INSERT failed: '' @ message err))
           | Inr (res, flds) \<Rightarrow> Inr (res_prop res ''affectedRows'')),
          b,
          io w @ [Execute (target_of b) (insertBulkSql (table b) (keys row0) (row0 # rows))
                    (flatten_values (keys row0) (row0 # rows))])"
  by (simp add: insertBulk_def observe_def execute_unfold Let_def)

text \<open>
  Claim C8. \<^verbatim>\<open>insertBulk(records)\<close> is to fail before any I/O unless every record has
  exactly the key set of the first record. The code, under its comment "Ensure all rows
  have the same keys", only looks for the first row's keys in each row: for
  \<^verbatim>\<open>[{name: "A"}, {name: "B", email: "b@x.io"}]\<close> it sends a two-row INSERT on the column
  \<^verbatim>\<open>name\<close> alone, drops the \<^verbatim>\<open>email\<close> value and returns the driver's affected-row count.
\<close>

theorem insertBulk_accepts_extra_column:
  "observe (insertBulk write_driver
              [[(''name'', JStr ''A'')], [(''name'', JStr ''B''), (''email'', JStr ''b@x.io'')]]
              (DB ''users'') quiet_world)
     = (Inr (JNum 1), DB ''users'',
        [Execute Pool
           (nl @ ind 10 @ ''INSERT INTO users (name)'' @ nl @ ind 10 @ ''VALUES (?), (?)''
            @ nl @ ind 8)
           [JStr ''A'', JStr ''B'']])"
  by (simp add: insertBulk_def observe_def execute_unfold Let_def keys_def has_key_def
        get_prop_def insertBulkSql_def flatten_values_def write_driver_def res_prop_def
        quiet_world_def DB_def reset_def target_of_def)

section \<open>Properties of transactions and raw SQL\<close>

lemma transaction_callback_error:
  assumes "getConnection_reply drv (io w) = Inr conn"
    and "beginTransaction_reply drv (io w @ [GetConnection]) conn = None"
    and "callback conn (w\<lparr>io := io w @ [GetConnection, BeginTransaction conn]\<rparr>) = (Inl err, w2)"
  shows "transaction drv callback w = (Inl err, w2\<lparr>io := io w2 @ [Release conn]\<rparr>)"
  using assms by (simp add: transaction_def release_def Let_def)

lemma transaction_callback_ok:
  assumes "getConnection_reply drv (io w) = Inr conn"
    and "beginTransaction_reply drv (io w @ [GetConnection]) conn = None"
    and "callback conn (w\<lparr>io := io w @ [GetConnection, BeginTransaction conn]\<rparr>) = (Inr res, w2)"
    and "commit_reply drv (io w2) conn = None"
  shows "transaction drv callback w = (Inr res, w2\<lparr>io := io w2 @ [Commit conn, Release conn]\<rparr>)"
  using assms by (simp add: transaction_def release_def Let_def)

text \<open>
  Claim C1. A unit of work that raises after begin-transaction is to be followed by a
  rollback on the checked-out connection, with no commit, and its error re-raised
  unchanged. The code has no \<^verbatim>\<open>catch\<close> and never calls \<^verbatim>\<open>rollback\<close>: for the README's
  unit of work that inserts and then throws "Fail", the driver sees the checkout, the
  begin, the insert on the connection and the release; the error "Fail" reaches the
  caller unchanged and nothing is committed, but nothing is rolled back either.
\<close>

theorem transaction_failure_no_rollback:
  "transaction write_driver (failing_work write_driver) quiet_world
     = (Inl (Error ''Fail''),
        \<lparr>debug = False,
         io = [GetConnection, BeginTransaction 0,
               Execute (Conn 0)
                 (nl @ ind 8 @ ''INSERT INTO users (name)'' @ nl @ ind 8 @ ''VALUES (?)''
                  @ nl @ ind 6)
                 [JStr ''Transaction User''],
               Release 0],
         console = []\<rparr>)"
  by (simp add: transaction_def failing_work_def insert_db_def execute_unfold Let_def
        release_def write_driver_def quiet_world_def trx_table_def DB_def reset_def
        target_of_def insertSql_def keys_def vals_def)

text \<open>
  Claim C10. For the same statement and parameters and the same driver reply, \<^verbatim>\<open>DB.sql\<close>
  (on the pool) returns only the first element of the driver's result tuple, the row
  sequence, whereas \<^verbatim>\<open>trx.sql\<close> (on the transaction connection) returns the whole tuple,
  row array and field metadata.
\<close>

theorem raw_sql_result_shapes:
  assumes "execute_reply drv (io w) Pool q p = Inr (rows, flds)"
    and "execute_reply drv (io w') (Conn conn) q p = Inr (rows, flds)"
  shows "fst (sql drv q p w) = Inr rows \<and> fst (trx_sql drv conn q p w') = Inr (rows, flds)
       \<and> io (snd (sql drv q p w)) = io w @ [Execute Pool q p]
       \<and> io (snd (trx_sql drv conn q p w')) = io w' @ [Execute (Conn conn) q p]"
  using assms by (simp add: sql_def trx_sql_def)

theorem raw_sql_result_shapes_witness:
  "execute_reply select_driver (io quiet_world) Pool
       ''SELECT * FROM users WHERE status = ?'' [JStr ''active'']
     = Inr (RowSet [[(''id'', JNum 1), (''status'', JStr ''active'')]], Fields [''id'', ''status''])
   \<and> execute_reply select_driver
       (io (quiet_world\<lparr>io := [GetConnection, BeginTransaction 0]\<rparr>)) (Conn 0)
       ''SELECT * FROM users WHERE status = ?'' [JStr ''active'']
     = Inr (RowSet [[(''id'', JNum 1), (''status'', JStr ''active'')]], Fields [''id'', ''status''])
   \<and> fst (sql select_driver ''SELECT * FROM users WHERE status = ?'' [JStr ''active''] quiet_world)
     = Inr (RowSet [[(''id'', JNum 1), (''status'', JStr ''active'')]])
   \<and> fst (trx_sql select_driver 0 ''SELECT * FROM users WHERE status = ?'' [JStr ''active'']
            (quiet_world\<lparr>io := [GetConnection, BeginTransaction 0]\<rparr>))
     = Inr (RowSet [[(''id'', JNum 1), (''status'', JStr ''active'')]], Fields [''id'', ''status''])"
proof -
  have h1: "execute_reply select_driver (io quiet_world) Pool
       ''SELECT * FROM users WHERE status = ?'' [JStr ''active'']
     = Inr (RowSet [[(''id'', JNum 1), (''status'', JStr ''active'')]], Fields [''id'', ''status''])"
    by (simp add: select_driver_def)
  have h2: "execute_reply select_driver
       (io (quiet_world\<lparr>io := [GetConnection, BeginTransaction 0]\<rparr>)) (Conn 0)
       ''SELECT * FROM users WHERE status = ?'' [JStr ''active'']
     = Inr (RowSet [[(''id'', JNum 1), (''status'', JStr ''active'')]], Fields [''id'', ''status''])"
    by (simp add: select_driver_def)
  show ?thesis
    using h1 h2 raw_sql_result_shapes [OF h1 h2] by simp
qed

end
